theory Spec2Isabelle
  imports Main "HOL-Library.Sublist"
begin

section \<open>Python values\<close>

text \<open>
  A Python \<^verbatim>\<open>str\<close> is a sequence of Unicode code points, so it is modelled as a list of
  natural numbers (not as bytes): \<^verbatim>\<open>len\<close>, \<^verbatim>\<open>in\<close>, \<^verbatim>\<open>lower\<close> and the UTF-8 encoder all work
  on code points. \<open>ascii\<close> writes an ASCII literal of the source as such a list.
\<close>

type_synonym pystr = "nat list"

definition ascii :: "string \<Rightarrow> pystr" where
  "ascii s = map of_char s"

text \<open>
  Text that pydantic accepts for a \<^verbatim>\<open>str\<close> field: every code point is a Unicode scalar
  value (below U+110000 and not a surrogate U+D800..U+DFFF).
\<close>

definition scalar_value :: "nat \<Rightarrow> bool" where
  "scalar_value c = (c < 0x110000 \<and> (c < 0xD800 \<or> 0xDFFF < c))"

definition unicode_text :: "pystr \<Rightarrow> bool" where
  "unicode_text s = list_all scalar_value s"

text \<open>
  The exceptions the modelled code can meet. All are subclasses of \<^verbatim>\<open>Exception\<close> except
  \<open>CancelledError\<close>, which stands for the \<^verbatim>\<open>BaseException\<close>s outside \<^verbatim>\<open>Exception\<close>
  (asyncio's cancellation): \<^verbatim>\<open>except Exception\<close> does not catch it.
  \<open>FormatFieldError\<close> stands for what \<^verbatim>\<open>str.format\<close> does with a template that has an
  unbalanced brace or a replacement field other than the plain \<^verbatim>\<open>{query}\<close>: Python raises
  ValueError, KeyError, IndexError or AttributeError there, except for a field that adds a
  conversion, a format spec or an index to \<^verbatim>\<open>query\<close>, which this model does not interpret
  and reports in the same way. No template of the routing table has such a field.
\<close>

datatype py_exception =
    UnicodeEncodeError
  | FormatFieldError
  | ValidationError
  | TimeoutException
  | ConnectError
  | HTTPStatusError
  | ParserError
  | CancelledError

definition is_Exception :: "py_exception \<Rightarrow> bool" where
  "is_Exception e = (e \<noteq> CancelledError)"

section \<open>Response models (src/models/responses.py)\<close>

text \<open>
  The float fields (\<^verbatim>\<open>confidence\<close>) are left out: no modelled function reads them.
\<close>

record SearchQuery =
  query :: pystr

record MarketplaceLink =
  marketplace :: pystr
  query :: pystr
  url :: pystr

record VisionAnalysisResult =
  object_type :: pystr
  description :: pystr
  search_queries :: "SearchQuery list"

text \<open>The values of \<^verbatim>\<open>Literal["abebooks", "vinted", "leboncoin"]\<close>.\<close>

definition marketplace_literal :: "pystr list" where
  "marketplace_literal = [ascii ''abebooks'', ascii ''vinted'', ascii ''leboncoin'']"

section \<open>urllib.parse.quote\<close>

text \<open>
  \<^verbatim>\<open>str.encode("utf-8", "strict")\<close>, one code point at a time: one to four bytes, and
  UnicodeEncodeError on a surrogate. (A Python \<^verbatim>\<open>str\<close> holds no code point from U+110000 on;
  the model reports the same error there.)
\<close>

definition utf8_encode_cp :: "nat \<Rightarrow> py_exception + nat list" where
  "utf8_encode_cp c =
     (if c < 0x80 then Inr [c]
      else if c < 0x800 then Inr [0xC0 + c div 0x40, 0x80 + c mod 0x40]
      else if c < 0x10000 then
        (if 0xD800 \<le> c \<and> c \<le> 0xDFFF then Inl UnicodeEncodeError
         else Inr [0xE0 + c div 0x1000, 0x80 + (c div 0x40) mod 0x40, 0x80 + c mod 0x40])
      else if c < 0x110000 then
        Inr [0xF0 + c div 0x40000, 0x80 + (c div 0x1000) mod 0x40,
             0x80 + (c div 0x40) mod 0x40, 0x80 + c mod 0x40]
      else Inl UnicodeEncodeError)"

fun utf8_encode :: "pystr \<Rightarrow> py_exception + nat list" where
  "utf8_encode [] = Inr []"
| "utf8_encode (c # cs) =
     (case utf8_encode_cp c of
        Inl e \<Rightarrow> Inl e
      | Inr bs \<Rightarrow> (case utf8_encode cs of Inl e \<Rightarrow> Inl e | Inr rest \<Rightarrow> Inr (bs @ rest)))"

text \<open>
  \<^verbatim>\<open>_ALWAYS_SAFE\<close>: the ASCII letters, the digits and \<^verbatim>\<open>_.-~\<close>.
\<close>

definition always_safe :: "nat \<Rightarrow> bool" where
  "always_safe b =
     ((0x41 \<le> b \<and> b \<le> 0x5A) \<or> (0x61 \<le> b \<and> b \<le> 0x7A) \<or> (0x30 \<le> b \<and> b \<le> 0x39)
      \<or> b = 0x5F \<or> b = 0x2E \<or> b = 0x2D \<or> b = 0x7E)"

text \<open>One digit of \<^verbatim>\<open>'%{:02X}'.format(b)\<close>: upper-case hexadecimal.\<close>

definition hex_digit :: "nat \<Rightarrow> nat" where
  "hex_digit n = (if n < 10 then 0x30 + n else 0x37 + n)"

text \<open>
  The quoter of one byte: itself when it is always safe or listed in \<open>safe\<close>, else
  \<^verbatim>\<open>%XX\<close>. Of the \<open>safe\<close> argument only its ASCII characters count.
\<close>

definition quoter :: "pystr \<Rightarrow> nat \<Rightarrow> pystr" where
  "quoter safe b =
     (if always_safe b \<or> b \<in> set (filter (\<lambda>c. c < 0x80) safe) then [b]
      else [0x25, hex_digit (b div 16), hex_digit (b mod 16)])"

definition quote_from_bytes :: "nat list \<Rightarrow> pystr \<Rightarrow> pystr" where
  "quote_from_bytes bs safe = concat (map (quoter safe) bs)"

definition quote :: "pystr \<Rightarrow> pystr \<Rightarrow> py_exception + pystr" where
  "quote string safe =
     (if string = [] then Inr string
      else (case utf8_encode string of
              Inl e \<Rightarrow> Inl e
            | Inr bs \<Rightarrow> Inr (quote_from_bytes bs safe)))"

section \<open>str.format with the keyword query\<close>

text \<open>
  \<^verbatim>\<open>template.format(query=q)\<close>: literal text is copied, \<^verbatim>\<open>{{\<close> and \<^verbatim>\<open>}}\<close> give one
  brace, \<^verbatim>\<open>{query}\<close> gives \<open>q\<close>.
\<close>

fun str_format_query :: "pystr \<Rightarrow> pystr \<Rightarrow> py_exception + pystr" where
  "str_format_query [] q = Inr []"
| "str_format_query (c # cs) q =
     (if c = 0x7B then
        (if take 1 cs = [0x7B] then map_sum id ((#) 0x7B) (str_format_query (drop 1 cs) q)
         else if take 6 cs = ascii ''query}'' then map_sum id ((@) q) (str_format_query (drop 6 cs) q)
         else Inl FormatFieldError)
      else if c = 0x7D then
        (if take 1 cs = [0x7D] then map_sum id ((#) 0x7D) (str_format_query (drop 1 cs) q)
         else Inl FormatFieldError)
      else map_sum id ((#) c) (str_format_query cs q))"

section \<open>The URL builder (src/services/url_builder.py)\<close>

text \<open>
  The functions of the module in the order of the source. The calls of the logger are
  left out: they return nothing and change no result.
\<close>

definition MARKETPLACE_URLS :: "pystr \<rightharpoonup> pystr \<times> pystr" where
  "MARKETPLACE_URLS =
     [ascii ''book'' \<mapsto>
        (ascii ''abebooks'',
         ascii ''https://www.abebooks.fr/servlet/SearchResults?kn={query}&sts=t''),
      ascii ''clothing'' \<mapsto>
        (ascii ''vinted'',
         ascii ''https://www.vinted.fr/catalog?search_text={query}'')]"

definition DEFAULT_MARKETPLACE :: "pystr \<times> pystr" where
  "DEFAULT_MARKETPLACE =
     (ascii ''leboncoin'', ascii ''https://www.leboncoin.fr/recherche?text={query}'')"

text \<open>\<^verbatim>\<open>MARKETPLACE_URLS.get(object_type, DEFAULT_MARKETPLACE)\<close>.\<close>

definition get_marketplace_for_type :: "pystr \<Rightarrow> pystr \<times> pystr" where
  "get_marketplace_for_type obj_type =
     (case MARKETPLACE_URLS obj_type of None \<Rightarrow> DEFAULT_MARKETPLACE | Some entry \<Rightarrow> entry)"

definition encode_query :: "pystr \<Rightarrow> py_exception + pystr" where
  "encode_query q = quote q []"

text \<open>
  The constructor \<^verbatim>\<open>MarketplaceLink(...)\<close> validates the marketplace name against the
  literal type and raises ValidationError on any other name.
\<close>

definition build_marketplace_link ::
  "pystr \<Rightarrow> pystr \<Rightarrow> pystr \<Rightarrow> py_exception + MarketplaceLink" where
  "build_marketplace_link marketplace_name url_template q =
     (case encode_query q of
        Inl e \<Rightarrow> Inl e
      | Inr encoded_query \<Rightarrow>
          (case str_format_query url_template encoded_query of
             Inl e \<Rightarrow> Inl e
           | Inr u \<Rightarrow>
               if marketplace_name \<in> set marketplace_literal
               then Inr \<lparr>marketplace = marketplace_name, query = q, url = u\<rparr>
               else Inl ValidationError))"

text \<open>
  The slice \<^verbatim>\<open>xs[:n]\<close> for a Python int \<open>n\<close>: the first \<open>n\<close> elements, and for a negative
  \<open>n\<close> all but the last \<open>-n\<close>.
\<close>

definition slice_to :: "'a list \<Rightarrow> int \<Rightarrow> 'a list" where
  "slice_to xs n = (if 0 \<le> n then take (nat n) xs else take (nat (int (length xs) + n)) xs)"

text \<open>The loop of \<^verbatim>\<open>build_marketplace_links\<close>, with \<open>links\<close> the list built so far.\<close>

fun build_links_loop ::
  "pystr \<Rightarrow> pystr \<Rightarrow> SearchQuery list \<Rightarrow> MarketplaceLink list
   \<Rightarrow> py_exception + MarketplaceLink list" where
  "build_links_loop marketplace_name url_template [] links = Inr links"
| "build_links_loop marketplace_name url_template (search_query # rest) links =
     (case build_marketplace_link marketplace_name url_template (SearchQuery.query search_query) of
        Inl e \<Rightarrow> Inl e
      | Inr link \<Rightarrow> build_links_loop marketplace_name url_template rest (links @ [link]))"

definition build_marketplace_links ::
  "VisionAnalysisResult \<Rightarrow> int \<Rightarrow> py_exception + MarketplaceLink list" where
  "build_marketplace_links analysis max_links =
     (case get_marketplace_for_type (object_type analysis) of
        (marketplace_name, url_template) \<Rightarrow>
          build_links_loop marketplace_name url_template
            (slice_to (search_queries analysis) max_links) [])"

section \<open>Percent-decoding\<close>

text \<open>
  The repository only encodes; the decoder that the round-trip property speaks of is the
  standard inverse: every \<^verbatim>\<open>%XX\<close> with two hexadecimal digits (either case) becomes the
  byte XX, every other character stands for its own byte, and the bytes are read as
  strict UTF-8 (shortest form, no surrogate, at most U+10FFFF). The result is \<open>None\<close>
  when the input is not ASCII or the bytes are not well-formed UTF-8.
\<close>

definition hex_value :: "nat \<Rightarrow> nat option" where
  "hex_value d =
     (if 0x30 \<le> d \<and> d \<le> 0x39 then Some (d - 0x30)
      else if 0x41 \<le> d \<and> d \<le> 0x46 then Some (d - 0x37)
      else if 0x61 \<le> d \<and> d \<le> 0x66 then Some (d - 0x57)
      else None)"

fun unquote_to_bytes :: "pystr \<Rightarrow> nat list" where
  "unquote_to_bytes [] = []"
| "unquote_to_bytes (c # cs) =
     (if c = 0x25 then
        (case cs of
           h # l # rest \<Rightarrow>
             (case (hex_value h, hex_value l) of
                (Some a, Some b) \<Rightarrow> (16 * a + b) # unquote_to_bytes rest
              | _ \<Rightarrow> c # unquote_to_bytes cs)
         | _ \<Rightarrow> c # unquote_to_bytes cs)
      else c # unquote_to_bytes cs)"

definition continuation :: "nat \<Rightarrow> bool" where
  "continuation b = (0x80 \<le> b \<and> b < 0xC0)"

fun utf8_decode :: "nat list \<Rightarrow> pystr option" where
  "utf8_decode [] = Some []"
| "utf8_decode (b0 # bs) =
     (if b0 < 0x80 then map_option ((#) b0) (utf8_decode bs)
      else if 0xC0 \<le> b0 \<and> b0 < 0xE0 then
        (case bs of
           b1 # rest \<Rightarrow>
             (let c = (b0 - 0xC0) * 0x40 + (b1 - 0x80)
              in if continuation b1 \<and> 0x80 \<le> c
                 then map_option ((#) c) (utf8_decode rest) else None)
         | _ \<Rightarrow> None)
      else if 0xE0 \<le> b0 \<and> b0 < 0xF0 then
        (case bs of
           b1 # b2 # rest \<Rightarrow>
             (let c = (b0 - 0xE0) * 0x1000 + (b1 - 0x80) * 0x40 + (b2 - 0x80)
              in if continuation b1 \<and> continuation b2 \<and> 0x800 \<le> c
                    \<and> (c < 0xD800 \<or> 0xDFFF < c)
                 then map_option ((#) c) (utf8_decode rest) else None)
         | _ \<Rightarrow> None)
      else if 0xF0 \<le> b0 \<and> b0 < 0xF8 then
        (case bs of
           b1 # b2 # b3 # rest \<Rightarrow>
             (let c = (b0 - 0xF0) * 0x40000 + (b1 - 0x80) * 0x1000 + (b2 - 0x80) * 0x40
                      + (b3 - 0x80)
              in if continuation b1 \<and> continuation b2 \<and> continuation b3
                    \<and> 0x10000 \<le> c \<and> c < 0x110000
                 then map_option ((#) c) (utf8_decode rest) else None)
         | _ \<Rightarrow> None)
      else None)"

definition percent_decode :: "pystr \<Rightarrow> pystr option" where
  "percent_decode s =
     (if list_all (\<lambda>c. c < 0x80) s then utf8_decode (unquote_to_bytes s) else None)"

section \<open>str.lower and the substring test\<close>

text \<open>
  \<^verbatim>\<open>str.lower()\<close> maps every code point by the Unicode character database, and maps a
  capital sigma (U+03A3) by its context. Within Latin-1 the mapping is written out: the
  letters A..Z and U+00C0..U+00DE (without the multiplication sign U+00D7) move up by
  0x20 and nothing else changes. Beyond Latin-1 the database is a parameter:
  \<open>to_lower_full\<close> gives the lower-case mapping of a code point and
  \<open>handle_capital_sigma\<close> the sigma chosen between the text before and after it.
\<close>

record unicode_database =
  to_lower_full :: "nat \<Rightarrow> pystr"
  handle_capital_sigma :: "pystr \<Rightarrow> pystr \<Rightarrow> nat"

definition latin1_lower :: "nat \<Rightarrow> nat" where
  "latin1_lower c =
     (if (0x41 \<le> c \<and> c \<le> 0x5A) \<or> (0xC0 \<le> c \<and> c \<le> 0xDE \<and> c \<noteq> 0xD7) then c + 0x20 else c)"

definition lower_ucs4 :: "unicode_database \<Rightarrow> pystr \<Rightarrow> pystr \<Rightarrow> nat \<Rightarrow> pystr" where
  "lower_ucs4 db before after c =
     (if c = 0x3A3 then [handle_capital_sigma db before after]
      else if c < 0x100 then [latin1_lower c]
      else to_lower_full db c)"

fun do_lower :: "unicode_database \<Rightarrow> pystr \<Rightarrow> pystr \<Rightarrow> pystr" where
  "do_lower db before [] = []"
| "do_lower db before (c # after) = lower_ucs4 db before after c @ do_lower db (before @ [c]) after"

definition str_lower :: "unicode_database \<Rightarrow> pystr \<Rightarrow> pystr" where
  "str_lower db s = do_lower db [] s"

text \<open>\<^verbatim>\<open>needle in hay\<close> on strings: \<open>needle\<close> occurs in \<open>hay\<close> as a contiguous run.\<close>

definition str_in :: "pystr \<Rightarrow> pystr \<Rightarrow> bool" where
  "str_in needle hay = sublist needle hay"

section \<open>The link validator (src/services/link_validator.py)\<close>

text \<open>
  The inner dictionaries of \<^verbatim>\<open>MARKETPLACE_SELECTORS\<close> hold a list of strings or a string;
  the \<^verbatim>\<open>isinstance\<close> tests of the source are the cases of this type.
\<close>

datatype selector_value = StrList "pystr list" | Str pystr

definition MARKETPLACE_SELECTORS :: "pystr \<rightharpoonup> (pystr \<rightharpoonup> selector_value)" where
  "MARKETPLACE_SELECTORS =
     [ascii ''abebooks'' \<mapsto>
        [ascii ''no_results_text'' \<mapsto>
           StrList [ascii ''aucun r'' @ [0xE9] @ ascii ''sultat'',
                    ascii ''no results found'',
                    ascii ''0 r'' @ [0xE9] @ ascii ''sultat''],
         ascii ''results_selector'' \<mapsto>
           Str (ascii ''.result-item, .cf-search-results-content, #srp-results'')],
      ascii ''vinted'' \<mapsto>
        [ascii ''no_results_text'' \<mapsto>
           StrList [ascii ''aucun article'',
                    ascii ''aucun r'' @ [0xE9] @ ascii ''sultat''],
         ascii ''results_selector'' \<mapsto>
           Str (ascii ''.feed-grid__item, .ItemBox_container, [data-testid='' @ [0x27]
                @ ascii ''item-box'' @ [0x27] @ ascii '']'')],
      ascii ''leboncoin'' \<mapsto>
        [ascii ''no_results_text'' \<mapsto>
           StrList [ascii ''aucune annonce'',
                    ascii ''0 annonce trouv'' @ [0xE9] @ ascii ''e'',
                    ascii ''pas de r'' @ [0xE9] @ ascii ''sultat''],
         ascii ''results_selector'' \<mapsto>
           Str (ascii ''[data-qa-id='' @ [0x27] @ ascii ''aditem_container'' @ [0x27]
                @ ascii ''], .styles_adCard, [data-test-id='' @ [0x27] @ ascii ''ad''
                @ [0x27] @ ascii '']'')]]"

text \<open>
  What the code reads of a parsed page: its visible text (\<^verbatim>\<open>soup.get_text()\<close>) and the
  elements a CSS selector matches (\<^verbatim>\<open>soup.select(selector)\<close>).
\<close>

record 'e soup =
  get_text :: pystr
  select :: "pystr \<Rightarrow> 'e list"

record response =
  status_code :: nat
  response_text :: pystr

text \<open>
  Everything outside the program: the Unicode database, the HTML parser
  (\<^verbatim>\<open>BeautifulSoup(html, "lxml")\<close>, which may raise) and the network. \<open>client_get i u\<close> is
  the outcome of the request that the \<open>i\<close>-th task of a batch makes for the URL \<open>u\<close>
  within its timeout: a response, or the exception raised (two requests for one URL
  need not end alike).
\<close>

record 'e world =
  ucd :: unicode_database
  BeautifulSoup :: "pystr \<Rightarrow> py_exception + 'e soup"
  client_get :: "nat \<Rightarrow> pystr \<Rightarrow> py_exception + response"

text \<open>\<^verbatim>\<open>response.raise_for_status()\<close>: HTTPStatusError unless the status is 2xx.\<close>

definition raise_for_status :: "response \<Rightarrow> py_exception option" where
  "raise_for_status r =
     (if 200 \<le> status_code r \<and> status_code r < 300 then None else Some HTTPStatusError)"

text \<open>
  The first loop of \<^verbatim>\<open>check_for_results\<close>: \<open>True\<close> when it reaches its
  \<^verbatim>\<open>return False\<close>, that is when some phrase, lower-cased, occurs in the page text.
\<close>

fun no_results_indicator :: "unicode_database \<Rightarrow> pystr \<Rightarrow> pystr list \<Rightarrow> bool" where
  "no_results_indicator db page_text [] = False"
| "no_results_indicator db page_text (phrase # rest) =
     (if str_in (str_lower db phrase) page_text then True
      else no_results_indicator db page_text rest)"

definition check_for_results :: "'e world \<Rightarrow> pystr \<Rightarrow> pystr \<Rightarrow> py_exception + bool" where
  "check_for_results w html marketplace_name =
     (case BeautifulSoup w html of
        Inl e \<Rightarrow> Inl e
      | Inr page \<Rightarrow>
          (let selectors = (case MARKETPLACE_SELECTORS marketplace_name of
                              None \<Rightarrow> Map.empty | Some d \<Rightarrow> d);
               page_text = str_lower (ucd w) (get_text page);
               no_results_phrases = (case selectors (ascii ''no_results_text'') of
                                       None \<Rightarrow> StrList [] | Some v \<Rightarrow> v)
           in if (case no_results_phrases of
                    StrList phrases \<Rightarrow> no_results_indicator (ucd w) page_text phrases
                  | Str _ \<Rightarrow> False)
              then Inr False
              else (let results_selector = (case selectors (ascii ''results_selector'') of
                                              None \<Rightarrow> Str [] | Some v \<Rightarrow> v)
                    in case results_selector of
                         Str sel \<Rightarrow>
                           if sel \<noteq> [] \<and> 0 < length (select page sel) then Inr True
                           else Inr True
                       | StrList _ \<Rightarrow> Inr True)))"

text \<open>
  \<^verbatim>\<open>validate_single_link\<close>: the body of the \<^verbatim>\<open>try\<close>, then the two handlers. An exception
  outside \<^verbatim>\<open>Exception\<close> passes both handlers and leaves the task. The \<^verbatim>\<open>timeout\<close> argument
  only reaches the HTTP client, so it is part of the world's answer and not an argument
  here; \<open>i\<close> is the position of the task in its batch.
\<close>

definition validate_single_link ::
  "'e world \<Rightarrow> nat \<Rightarrow> MarketplaceLink \<Rightarrow> py_exception + MarketplaceLink \<times> bool" where
  "validate_single_link w i link =
     (let attempt =
        (case client_get w i (url link) of
           Inl e \<Rightarrow> Inl e
         | Inr r \<Rightarrow>
             (case raise_for_status r of
                Some e \<Rightarrow> Inl e
              | None \<Rightarrow>
                  (case check_for_results w (response_text r) (marketplace link) of
                     Inl e \<Rightarrow> Inl e
                   | Inr has_results \<Rightarrow> Inr (link, has_results))))
      in case attempt of
           Inr result \<Rightarrow> Inr result
         | Inl e \<Rightarrow>
             if e = TimeoutException then Inr (link, True)
             else if is_Exception e then Inr (link, True)
             else Inl e)"

text \<open>
  \<^verbatim>\<open>asyncio.gather(*tasks, return_exceptions=True)\<close>: one result per link, in the order of
  the links; a task that raised gives its exception as its result.
\<close>

definition gather_results ::
  "'e world \<Rightarrow> MarketplaceLink list \<Rightarrow> (py_exception + MarketplaceLink \<times> bool) list" where
  "gather_results w links = map (\<lambda>(i, link). validate_single_link w i link) (enumerate 0 links)"

text \<open>The filter loop, with \<open>valid_links\<close> the list built so far.\<close>

fun collect_valid ::
  "(py_exception + MarketplaceLink \<times> bool) list \<Rightarrow> MarketplaceLink list \<Rightarrow> MarketplaceLink list" where
  "collect_valid [] valid_links = valid_links"
| "collect_valid (Inl e # results) valid_links = collect_valid results valid_links"
| "collect_valid (Inr (link, has_results) # results) valid_links =
     (if has_results then collect_valid results (valid_links @ [link])
      else collect_valid results valid_links)"

definition validate_marketplace_links :: "'e world \<Rightarrow> MarketplaceLink list \<Rightarrow> MarketplaceLink list" where
  "validate_marketplace_links w links =
     (if links = [] then links
      else (let valid_links = collect_valid (gather_results w links) []
            in if valid_links = [] \<and> links \<noteq> [] then [hd links] else valid_links))"

section \<open>Specification-level definitions\<close>

text \<open>
  The UTF-8 bytes of a code point as the encoder gives them (none where it raises), the
  escape \<^verbatim>\<open>%XX\<close> of one byte, and the encoding the specification asks for: a character of
  the unreserved set stands for itself, any other is the escapes of its UTF-8 bytes.
\<close>

definition utf8_bytes :: "nat \<Rightarrow> nat list" where
  "utf8_bytes c = (case utf8_encode_cp c of Inl e \<Rightarrow> [] | Inr bs \<Rightarrow> bs)"

definition percent_escape :: "nat \<Rightarrow> pystr" where
  "percent_escape b = [0x25, hex_digit (b div 16), hex_digit (b mod 16)]"

definition spec_encode_char :: "nat \<Rightarrow> pystr" where
  "spec_encode_char c =
     (if always_safe c then [c] else concat (map percent_escape (utf8_bytes c)))"


text \<open>The no-results phrases that \<^verbatim>\<open>MARKETPLACE_SELECTORS\<close> lists for a marketplace.\<close>

definition no_results_text :: "pystr \<Rightarrow> pystr list" where
  "no_results_text marketplace_name =
     (case MARKETPLACE_SELECTORS marketplace_name of
        None \<Rightarrow> []
      | Some d \<Rightarrow> (case d (ascii ''no_results_text'') of Some (StrList phrases) \<Rightarrow> phrases | _ \<Rightarrow> []))"


text \<open>
  A fetch failure of the \<open>i\<close>-th task: the request raises an exception (a timeout, a
  connection error, any other subclass of \<^verbatim>\<open>Exception\<close>), or the status is not 2xx, or
  parsing the body raises an exception.
\<close>

definition fetch_failure :: "'e world \<Rightarrow> nat \<Rightarrow> MarketplaceLink \<Rightarrow> bool" where
  "fetch_failure w i link =
     (case client_get w i (url link) of
        Inl e \<Rightarrow> is_Exception e
      | Inr r \<Rightarrow>
          if 200 \<le> status_code r \<and> status_code r < 300 then
            (case BeautifulSoup w (response_text r) of
               Inl e \<Rightarrow> is_Exception e
             | Inr page \<Rightarrow> False)
          else True)"


section \<open>Example inputs\<close>

text \<open>
  A classification of the specification's examples, and a small outside world: a database
  that maps nothing beyond Latin-1, a parser that takes the whole body as visible text
  and finds one element for every selector, and a network whose first four requests give
  a page without results, a timeout, a 404 and a page with results. Three more networks
  answer every request alike: with a page without results, with a page with results, and
  with the cancellation of the task.
\<close>

definition example_book :: VisionAnalysisResult where
  "example_book =
     \<lparr>object_type = ascii ''book'', description = ascii ''Roman policier'',
      search_queries = [\<lparr>SearchQuery.query = ascii ''livre policier''\<rparr>,
                        \<lparr>SearchQuery.query = ascii ''roman thriller''\<rparr>]\<rparr>"

definition cle_a_molette :: pystr where
  "cle_a_molette = ascii ''cl'' @ [0xE9] @ ascii '' '' @ [0xE0] @ ascii '' molette''"

definition example_tools :: VisionAnalysisResult where
  "example_tools =
     \<lparr>object_type = ascii ''tools'', description = ascii ''Outil'',
      search_queries = [\<lparr>SearchQuery.query = cle_a_molette\<rparr>]\<rparr>"

definition example_db :: unicode_database where
  "example_db = \<lparr>to_lower_full = (\<lambda>c. [c]), handle_capital_sigma = (\<lambda>before after. 0x3C3)\<rparr>"

definition example_page :: "pystr \<Rightarrow> nat soup" where
  "example_page html = \<lparr>get_text = html, select = (\<lambda>sel. [0])\<rparr>"

definition example_parser :: "pystr \<Rightarrow> py_exception + nat soup" where
  "example_parser html = Inr (example_page html)"

definition example_net :: "nat \<Rightarrow> pystr \<Rightarrow> py_exception + response" where
  "example_net i u =
     (if i = 0 then Inr \<lparr>status_code = 200, response_text = ascii ''No Results Found''\<rparr>
      else if i = 1 then Inl TimeoutException
      else if i = 2 then Inr \<lparr>status_code = 404, response_text = []\<rparr>
      else Inr \<lparr>status_code = 200, response_text = ascii ''3 livres''\<rparr>)"

definition example_world :: "nat world" where
  "example_world = \<lparr>ucd = example_db, BeautifulSoup = example_parser, client_get = example_net\<rparr>"

definition no_results_world :: "nat world" where
  "no_results_world =
     \<lparr>ucd = example_db, BeautifulSoup = example_parser,
      client_get = (\<lambda>i u. Inr \<lparr>status_code = 200, response_text = ascii ''NO RESULTS FOUND''\<rparr>)\<rparr>"

definition cancelled_world :: "nat world" where
  "cancelled_world =
     \<lparr>ucd = example_db, BeautifulSoup = example_parser,
      client_get = (\<lambda>i u. Inl CancelledError)\<rparr>"

definition results_world :: "nat world" where
  "results_world =
     \<lparr>ucd = example_db, BeautifulSoup = example_parser,
      client_get = (\<lambda>i u. Inr \<lparr>status_code = 200, response_text = ascii ''3 livres''\<rparr>)\<rparr>"

definition example_link :: "string \<Rightarrow> MarketplaceLink" where
  "example_link q =
     \<lparr>marketplace = ascii ''abebooks'', query = ascii q,
      url = ascii ''https://www.abebooks.fr/servlet/SearchResults?kn='' @ ascii q @ ascii ''&sts=t''\<rparr>"


section \<open>Lemmas: encoding, decoding and the builder\<close>

lemma div_mod_64: "(c::nat) div 64 * 64 + c mod 64 = c" by simp
lemma div_4096: "(c::nat) div 4096 = c div 64 div 64" by (simp add: div_mult2_eq[symmetric])
lemma div_262144: "(c::nat) div 262144 = c div 4096 div 64" by (simp add: div_mult2_eq[symmetric])
lemma three_digits: "a = u * 64 + v \<Longrightarrow> c = a * 64 + w \<Longrightarrow> u * 4096 + v * 64 + w = (c::nat)" by simp
lemma four_digits: "b = t * 64 + u \<Longrightarrow> a = b * 64 + v \<Longrightarrow> c = a * 64 + w \<Longrightarrow> t * 262144 + u * 4096 + v * 64 + w = (c::nat)" by simp
lemma digits_3: "(c::nat) div 4096 * 4096 + c div 64 mod 64 * 64 + c mod 64 = c"
  by (rule three_digits [where a = "c div 64"]) (simp_all add: div_4096)
lemma digits_4: "(c::nat) div 262144 * 262144 + c div 4096 mod 64 * 4096 + c div 64 mod 64 * 64 + c mod 64 = c"
  by (rule four_digits [where a = "c div 64" and b = "c div 4096"]) (simp_all add: div_4096 div_262144)
lemma lead_2: "(c::nat) < 0x800 \<Longrightarrow> c div 0x40 < 0x20" by (simp add: less_mult_imp_div_less)
lemma lead_3: "(c::nat) < 0x10000 \<Longrightarrow> c div 0x1000 < 0x10" by (simp add: less_mult_imp_div_less)
lemma lead_4: "(c::nat) < 0x110000 \<Longrightarrow> c div 0x40000 < 8" by (simp add: less_mult_imp_div_less)

lemma utf8_decode_2:
  assumes "0x80 \<le> c" "c < 0x800"
  shows "utf8_decode ((0xC0 + c div 0x40) # (0x80 + c mod 0x40) # rest) = map_option ((#) c) (utf8_decode rest)"
  using assms lead_2 [of c] by (simp add: continuation_def Let_def)

lemma utf8_decode_3:
  assumes "0x800 \<le> c" "c < 0x10000" "c < 0xD800 \<or> 0xDFFF < c"
  shows "utf8_decode ((0xE0 + c div 0x1000) # (0x80 + (c div 0x40) mod 0x40) # (0x80 + c mod 0x40) # rest)
     = map_option ((#) c) (utf8_decode rest)"
  using assms lead_3 [of c] by (simp add: continuation_def Let_def digits_3)

lemma utf8_decode_4:
  assumes "0x10000 \<le> c" "c < 0x110000"
  shows "utf8_decode ((0xF0 + c div 0x40000) # (0x80 + (c div 0x1000) mod 0x40) # (0x80 + (c div 0x40) mod 0x40) # (0x80 + c mod 0x40) # rest)
     = map_option ((#) c) (utf8_decode rest)"
  using assms lead_4 [of c] by (simp add: continuation_def Let_def digits_4)

lemma utf8_decode_encode_cp:
  assumes "utf8_encode_cp c = Inr bs"
  shows "utf8_decode (bs @ rest) = map_option ((#) c) (utf8_decode rest)"
proof -
  consider (one) "c < 0x80" | (two) "0x80 \<le> c" "c < 0x800"
    | (three) "0x800 \<le> c" "c < 0x10000" | (four) "0x10000 \<le> c" "c < 0x110000"
    | (big) "0x110000 \<le> c"
    by linarith
  then show ?thesis
  proof cases
    case one
    with assms show ?thesis by (auto simp: utf8_encode_cp_def)
  next
    case two
    then have bs: "bs = [0xC0 + c div 0x40, 0x80 + c mod 0x40]"
      using assms by (simp add: utf8_encode_cp_def)
    show ?thesis unfolding bs using utf8_decode_2 [OF two] by simp
  next
    case three
    then have bs: "bs = [0xE0 + c div 0x1000, 0x80 + (c div 0x40) mod 0x40, 0x80 + c mod 0x40]"
      and ns: "c < 0xD800 \<or> 0xDFFF < c"
      using assms by (auto simp: utf8_encode_cp_def split: if_splits)
    show ?thesis unfolding bs using utf8_decode_3 [OF three ns] by simp
  next
    case four
    then have bs: "bs = [0xF0 + c div 0x40000, 0x80 + (c div 0x1000) mod 0x40,
             0x80 + (c div 0x40) mod 0x40, 0x80 + c mod 0x40]"
      using assms by (auto simp: utf8_encode_cp_def split: if_splits)
    show ?thesis unfolding bs using utf8_decode_4 [OF four] by simp
  next
    case big
    with assms show ?thesis by (simp add: utf8_encode_cp_def)
  qed
qed


lemma utf8_encode_cp_scalar:
  "scalar_value c \<Longrightarrow> utf8_encode_cp c = Inr (utf8_bytes c)"
  by (auto simp: utf8_bytes_def utf8_encode_cp_def scalar_value_def)

lemma utf8_encode_text:
  "unicode_text s \<Longrightarrow> utf8_encode s = Inr (concat (map utf8_bytes s))"
  by (induction s) (simp_all add: unicode_text_def utf8_encode_cp_scalar)

lemma always_safe_ascii: "always_safe b \<Longrightarrow> b < 0x80"
  by (auto simp: always_safe_def)

lemma utf8_bytes_ascii: "c < 0x80 \<Longrightarrow> utf8_bytes c = [c]"
  by (simp add: utf8_bytes_def utf8_encode_cp_def)

lemma utf8_bytes_high: "\<not> c < 0x80 \<Longrightarrow> list_all (\<lambda>b. 0x80 \<le> b) (utf8_bytes c)"
  by (simp add: utf8_bytes_def utf8_encode_cp_def)

lemma mod64_less: "(x::nat) mod 64 < 128"
proof -
  have "x mod 64 < 64" by simp
  then show ?thesis by linarith
qed

lemma utf8_bytes_byte: "list_all (\<lambda>b. b < 256) (utf8_bytes c)"
  by (simp add: utf8_bytes_def utf8_encode_cp_def lead_2 lead_3 lead_4 less_mult_imp_div_less mod64_less)

lemma quoter_unsafe: "\<not> always_safe b \<Longrightarrow> quoter [] b = percent_escape b"
  by (simp add: quoter_def percent_escape_def)

lemma quoter_high_byte: "0x80 \<le> b \<Longrightarrow> quoter [] b = percent_escape b"
proof -
  assume "0x80 \<le> b"
  then have "\<not> always_safe b" using always_safe_ascii [of b] by fastforce
  then show ?thesis by (rule quoter_unsafe)
qed

lemma quoter_high: "list_all (\<lambda>b. 0x80 \<le> b) bs \<Longrightarrow> map (quoter []) bs = map percent_escape bs"
  by (induction bs) (simp_all add: quoter_high_byte)

lemma quote_char:
  "quote_from_bytes (utf8_bytes c) [] = spec_encode_char c"
proof (cases "c < 0x80")
  case True
  then show ?thesis
    by (simp add: quote_from_bytes_def utf8_bytes_ascii spec_encode_char_def quoter_def percent_escape_def)
next
  case False
  then have unsafe: "\<not> always_safe c" using always_safe_ascii [of c] by fastforce
  have "map (quoter []) (utf8_bytes c) = map percent_escape (utf8_bytes c)"
    by (rule quoter_high [OF utf8_bytes_high [OF False]])
  then have "concat (map (quoter []) (utf8_bytes c)) = concat (map percent_escape (utf8_bytes c))"
    by (rule arg_cong)
  then show ?thesis using unsafe
    by (simp only: quote_from_bytes_def spec_encode_char_def if_False)
qed

lemma quote_from_bytes_append:
  "quote_from_bytes (xs @ ys) safe = quote_from_bytes xs safe @ quote_from_bytes ys safe"
  by (simp add: quote_from_bytes_def)

lemma quote_from_bytes_concat:
  "quote_from_bytes (concat (map utf8_bytes s)) [] = concat (map spec_encode_char s)"
  by (induction s) (simp_all add: quote_from_bytes_append quote_char, simp add: quote_from_bytes_def)

lemma encode_query_text:
  "unicode_text s \<Longrightarrow> encode_query s = Inr (concat (map spec_encode_char s))"
  by (cases "s = []") (simp_all add: encode_query_def quote_def utf8_encode_text quote_from_bytes_concat)

lemma hex_digit_safe: "n < 16 \<Longrightarrow> always_safe (hex_digit n)"
  by (auto simp: always_safe_def hex_digit_def)

lemma percent_escape_alphabet:
  "x \<in> set (percent_escape b) \<Longrightarrow> b < 256 \<Longrightarrow> always_safe x \<or> x = 0x25"
  by (auto simp: percent_escape_def hex_digit_safe less_mult_imp_div_less)

lemma spec_encode_char_alphabet:
  "x \<in> set (spec_encode_char c) \<Longrightarrow> always_safe x \<or> x = 0x25"
  using utf8_bytes_byte [of c]
  by (auto simp: spec_encode_char_def list_all_iff dest: percent_escape_alphabet split: if_splits)


lemma hex_value_digit: "n < 16 \<Longrightarrow> hex_value (hex_digit n) = Some n"
  by (auto simp: hex_value_def hex_digit_def)

lemma unquote_quoter:
  assumes "b < 256"
  shows "unquote_to_bytes (quoter [] b @ rest) = b # unquote_to_bytes rest"
proof (cases "always_safe b")
  case True
  then have "b \<noteq> 0x25" by (auto simp: always_safe_def)
  with True show ?thesis by (simp add: quoter_def)
next
  case False
  have "b div 16 < 16" "b mod 16 < 16" using assms by (simp_all add: less_mult_imp_div_less)
  then show ?thesis using False
    by (simp add: quoter_def hex_value_digit)
qed

lemma unquote_quote_from_bytes:
  "list_all (\<lambda>b. b < 256) bs \<Longrightarrow>
   unquote_to_bytes (quote_from_bytes bs [] @ rest) = bs @ unquote_to_bytes rest"
proof (induction bs)
  case Nil
  then show ?case by (simp add: quote_from_bytes_def)
next
  case (Cons b bs)
  have "quote_from_bytes (b # bs) [] @ rest = quoter [] b @ (quote_from_bytes bs [] @ rest)"
    by (simp add: quote_from_bytes_def)
  then show ?case using Cons by (simp add: unquote_quoter)
qed

lemma utf8_bytes_concat_byte: "list_all (\<lambda>b. b < 256) (concat (map utf8_bytes s))"
  by (induction s) (simp_all add: utf8_bytes_byte)

lemma utf8_decode_bytes:
  "unicode_text s \<Longrightarrow> utf8_decode (concat (map utf8_bytes s)) = Some s"
proof (induction s)
  case Nil
  then show ?case by simp
next
  case (Cons c s)
  then have "utf8_encode_cp c = Inr (utf8_bytes c)" and "unicode_text s"
    by (simp_all add: unicode_text_def utf8_encode_cp_scalar)
  then show ?case using Cons.IH by (simp add: utf8_decode_encode_cp)
qed

lemma encoded_ascii: "list_all (\<lambda>c. c < 0x80) (concat (map spec_encode_char s))"
proof -
  have "x < 0x80" if "x \<in> set (spec_encode_char c)" for x c
    using spec_encode_char_alphabet [OF that] always_safe_ascii [of x] by fastforce
  then show ?thesis by (auto simp: list_all_iff)
qed

lemma percent_decode_encoded:
  assumes "unicode_text s"
  shows "percent_decode (concat (map spec_encode_char s)) = Some s"
proof -
  have "unquote_to_bytes (quote_from_bytes (concat (map utf8_bytes s)) [] @ [])
        = concat (map utf8_bytes s) @ unquote_to_bytes []"
    by (rule unquote_quote_from_bytes [OF utf8_bytes_concat_byte])
  then have "unquote_to_bytes (concat (map spec_encode_char s)) = concat (map utf8_bytes s)"
    by (simp add: quote_from_bytes_concat)
  then show ?thesis using assms
    by (simp add: percent_decode_def encoded_ascii utf8_decode_bytes)
qed


lemma get_marketplace_for_type_cases:
  "get_marketplace_for_type t =
     (if t = ascii ''book'' then
        (ascii ''abebooks'',
         ascii ''https://www.abebooks.fr/servlet/SearchResults?kn={query}&sts=t'')
      else if t = ascii ''clothing'' then
        (ascii ''vinted'', ascii ''https://www.vinted.fr/catalog?search_text={query}'')
      else (ascii ''leboncoin'', ascii ''https://www.leboncoin.fr/recherche?text={query}''))"
  by (simp add: get_marketplace_for_type_def MARKETPLACE_URLS_def DEFAULT_MARKETPLACE_def ascii_def)

lemma routed_template:
  "\<exists>pre suf. snd (get_marketplace_for_type t) = pre @ ascii ''{query}'' @ suf
     \<and> (\<forall>e. str_format_query (snd (get_marketplace_for_type t)) e = Inr (pre @ e @ suf))"
proof -
  consider (book) "t = ascii ''book''" | (clothing) "t \<noteq> ascii ''book''" "t = ascii ''clothing''"
    | (other) "t \<noteq> ascii ''book''" "t \<noteq> ascii ''clothing''"
    by blast
  then show ?thesis
  proof cases
    case book
    have "snd (get_marketplace_for_type t)
            = ascii ''https://www.abebooks.fr/servlet/SearchResults?kn='' @ ascii ''{query}'' @ ascii ''&sts=t''
          \<and> (\<forall>e. str_format_query (snd (get_marketplace_for_type t)) e
                 = Inr (ascii ''https://www.abebooks.fr/servlet/SearchResults?kn='' @ e @ ascii ''&sts=t''))"
      by (simp add: get_marketplace_for_type_cases book) (simp add: ascii_def)
    then show ?thesis by blast
  next
    case clothing
    have "snd (get_marketplace_for_type t)
            = ascii ''https://www.vinted.fr/catalog?search_text='' @ ascii ''{query}'' @ []
          \<and> (\<forall>e. str_format_query (snd (get_marketplace_for_type t)) e
                 = Inr (ascii ''https://www.vinted.fr/catalog?search_text='' @ e @ []))"
      by (simp add: get_marketplace_for_type_cases clothing) (simp add: ascii_def)
    then show ?thesis by blast
  next
    case other
    have "snd (get_marketplace_for_type t)
            = ascii ''https://www.leboncoin.fr/recherche?text='' @ ascii ''{query}'' @ []
          \<and> (\<forall>e. str_format_query (snd (get_marketplace_for_type t)) e
                 = Inr (ascii ''https://www.leboncoin.fr/recherche?text='' @ e @ []))"
      by (simp add: get_marketplace_for_type_cases other) (simp add: ascii_def)
    then show ?thesis by blast
  qed
qed

lemma routed_marketplace_literal:
  "fst (get_marketplace_for_type t) \<in> set marketplace_literal"
  by (simp add: get_marketplace_for_type_cases marketplace_literal_def)

lemma build_marketplace_link_routed:
  assumes "unicode_text q"
  shows "\<exists>pre suf. snd (get_marketplace_for_type t) = pre @ ascii ''{query}'' @ suf
     \<and> build_marketplace_link (fst (get_marketplace_for_type t)) (snd (get_marketplace_for_type t)) q
         = Inr \<lparr>marketplace = fst (get_marketplace_for_type t), query = q,
                url = pre @ concat (map spec_encode_char q) @ suf\<rparr>"
proof -
  obtain pre suf where t: "snd (get_marketplace_for_type t) = pre @ ascii ''{query}'' @ suf"
    and f: "\<And>e. str_format_query (snd (get_marketplace_for_type t)) e = Inr (pre @ e @ suf)"
    using routed_template [of t] by blast
  have "build_marketplace_link (fst (get_marketplace_for_type t)) (snd (get_marketplace_for_type t)) q
         = Inr \<lparr>marketplace = fst (get_marketplace_for_type t), query = q,
                url = pre @ concat (map spec_encode_char q) @ suf\<rparr>"
    by (simp add: build_marketplace_link_def encode_query_text [OF assms] f routed_marketplace_literal)
  with t show ?thesis by blast
qed

lemma build_marketplace_link_fields:
  "build_marketplace_link n t q = Inr l \<Longrightarrow> marketplace l = n \<and> MarketplaceLink.query l = q"
  by (auto simp: build_marketplace_link_def split: sum.splits if_splits)

lemma build_links_loop_Inr:
  "build_links_loop n t qs acc = Inr r \<Longrightarrow>
   \<exists>links. r = acc @ links
     \<and> list_all2 (\<lambda>sq l. build_marketplace_link n t (SearchQuery.query sq) = Inr l) qs links"
proof (induction qs arbitrary: acc)
  case Nil
  then show ?case by simp
next
  case (Cons sq qs)
  then obtain l where l: "build_marketplace_link n t (SearchQuery.query sq) = Inr l"
    and r: "build_links_loop n t qs (acc @ [l]) = Inr r"
    by (auto split: sum.splits)
  from Cons.IH [OF r] obtain links where "r = (acc @ [l]) @ links"
    and "list_all2 (\<lambda>sq l. build_marketplace_link n t (SearchQuery.query sq) = Inr l) qs links"
    by blast
  then have "r = acc @ (l # links)
     \<and> list_all2 (\<lambda>sq l. build_marketplace_link n t (SearchQuery.query sq) = Inr l) (sq # qs) (l # links)"
    using l by simp
  then show ?case by blast
qed

lemma build_links_loop_total:
  "list_all (\<lambda>sq. \<exists>l. build_marketplace_link n t (SearchQuery.query sq) = Inr l) qs \<Longrightarrow>
   \<exists>r. build_links_loop n t qs acc = Inr r"
proof (induction qs arbitrary: acc)
  case Nil
  then show ?case by simp
next
  case (Cons sq qs)
  then obtain l where l: "build_marketplace_link n t (SearchQuery.query sq) = Inr l" by auto
  from Cons have "\<exists>r. build_links_loop n t qs (acc @ [l]) = Inr r" by simp
  then show ?case using l by simp
qed


lemmas builder_eval = build_marketplace_links_def get_marketplace_for_type_def MARKETPLACE_URLS_def
  DEFAULT_MARKETPLACE_def build_marketplace_link_def encode_query_def quote_def quote_from_bytes_def
  quoter_def always_safe_def hex_digit_def utf8_encode_cp_def slice_to_def marketplace_literal_def
  ascii_def


section \<open>Lemmas: the validator\<close>

lemma no_results_text_cases:
  "no_results_text m =
     (if m = ascii ''abebooks'' then
        [ascii ''aucun r'' @ [0xE9] @ ascii ''sultat'', ascii ''no results found'',
         ascii ''0 r'' @ [0xE9] @ ascii ''sultat'']
      else if m = ascii ''vinted'' then
        [ascii ''aucun article'', ascii ''aucun r'' @ [0xE9] @ ascii ''sultat'']
      else if m = ascii ''leboncoin'' then
        [ascii ''aucune annonce'', ascii ''0 annonce trouv'' @ [0xE9] @ ascii ''e'',
         ascii ''pas de r'' @ [0xE9] @ ascii ''sultat'']
      else [])"
  by (simp add: no_results_text_def MARKETPLACE_SELECTORS_def ascii_def)

lemma do_lower_latin1:
  "list_all (\<lambda>c. c < 0x100) s \<Longrightarrow> do_lower db before (s @ rest) = map latin1_lower s @ do_lower db (before @ s) rest"
  by (induction s arbitrary: before) (simp_all add: lower_ucs4_def)

lemma do_lower_infix:
  "list_all (\<lambda>c. c < 0x100) v \<Longrightarrow>
   \<exists>P S. do_lower db before (pre @ v @ suf) = P @ map latin1_lower v @ S"
proof (induction pre arbitrary: before)
  case Nil
  then show ?case using do_lower_latin1 [of v db before suf] by auto
next
  case (Cons c pre)
  from Cons.IH [OF Cons.prems, of "before @ [c]"] obtain P S
    where "do_lower db (before @ [c]) (pre @ v @ suf) = P @ map latin1_lower v @ S" by blast
  then have "do_lower db before ((c # pre) @ v @ suf)
     = (lower_ucs4 db before (pre @ v @ suf) c @ P) @ map latin1_lower v @ S" by simp
  then show ?case by blast
qed

lemma latin1_lower_ascii: "latin1_lower c < 0x80 \<Longrightarrow> c < 0x100"
  by (auto simp: latin1_lower_def split: if_splits)

lemma phrases_lower:
  "list_all (\<lambda>p. str_lower db p = p) (no_results_text m)"
  by (simp add: no_results_text_cases str_lower_def lower_ucs4_def latin1_lower_def ascii_def)

lemma no_results_indicator_iff:
  "no_results_indicator db page_text phrases
     = (\<exists>p\<in>set phrases. str_in (str_lower db p) page_text)"
  by (induction phrases) auto



lemma check_for_results_unfold:
  "check_for_results w html m =
     (case BeautifulSoup w html of
        Inl e \<Rightarrow> Inl e
      | Inr page \<Rightarrow>
          Inr (\<not> no_results_indicator (ucd w) (str_lower (ucd w) (get_text page)) (no_results_text m)))"
  by (simp add: check_for_results_def no_results_text_def Let_def
           split: sum.splits option.splits selector_value.splits)

lemma check_for_results_eq:
  assumes "BeautifulSoup w html = Inr page"
  shows "check_for_results w html m
     = Inr (\<not> (\<exists>p\<in>set (no_results_text m). str_in p (str_lower (ucd w) (get_text page))))"
proof -
  have low: "\<And>p. p \<in> set (no_results_text m) \<Longrightarrow> str_lower (ucd w) p = p"
    using phrases_lower [of "ucd w" m] by (simp add: list_all_iff)
  have "no_results_indicator (ucd w) t (no_results_text m)
     = (\<exists>p\<in>set (no_results_text m). str_in p t)" for t
    by (simp add: no_results_indicator_iff low)
  then show ?thesis using assms by (simp add: check_for_results_unfold)
qed

lemma str_in_lower:
  assumes "str_in phrase (map latin1_lower text)" and "list_all (\<lambda>c. c < 0x80) phrase"
  shows "str_in phrase (str_lower db text)"
proof -
  from assms(1) obtain ps ss where "map latin1_lower text = ps @ phrase @ ss"
    by (auto simp: str_in_def sublist_def)
  then have "\<exists>pre rest. text = pre @ rest \<and> ps = map latin1_lower pre
      \<and> phrase @ ss = map latin1_lower rest"
    by (rule map_eq_append_conv [THEN iffD1])
  then obtain pre rest where t1: "text = pre @ rest" and r: "map latin1_lower rest = phrase @ ss"
    by metis
  from r have "\<exists>v suf. rest = v @ suf \<and> phrase = map latin1_lower v \<and> ss = map latin1_lower suf"
    by (rule map_eq_append_conv [THEN iffD1])
  then obtain v suf where t2: "rest = v @ suf" and v: "map latin1_lower v = phrase"
    by metis
  have tx: "text = pre @ v @ suf" by (simp add: t1 t2)
  have "list_all (\<lambda>c. c < 0x100) v"
    using assms(2) v latin1_lower_ascii by (auto simp: list_all_iff)
  from do_lower_infix [OF this, of db "[]" pre suf] obtain P S
    where "str_lower db text = P @ phrase @ S" by (auto simp: str_lower_def tx v)
  then show ?thesis by (auto simp: str_in_def sublist_def)
qed

lemma validate_single_link_shape:
  "validate_single_link w i link = Inr (link, True)
   \<or> validate_single_link w i link = Inr (link, False)
   \<or> validate_single_link w i link = Inl CancelledError"
  by (auto simp: validate_single_link_def Let_def is_Exception_def split: sum.splits option.splits)

lemma collect_valid_gather:
  "collect_valid (map (\<lambda>(i, link). validate_single_link w i link) (enumerate n links)) acc
     = acc @ map snd (filter (\<lambda>(i, link). validate_single_link w i link = Inr (link, True))
                        (enumerate n links))"
proof (induction links arbitrary: n acc)
  case Nil
  then show ?case by simp
next
  case (Cons l links)
  show ?case using validate_single_link_shape [of w n l]
    by (auto simp: Cons.IH)
qed

lemma valid_links_subseq:
  "subseq (map snd (filter P (enumerate n links))) links"
proof -
  have "subseq (map snd (filter P (enumerate n links))) (map snd (enumerate n links))"
    by (intro subseq_map subseq_filter_left)
  then show ?thesis by simp
qed

lemmas validator_eval = validate_marketplace_links_def gather_results_def validate_single_link_def
  check_for_results_unfold no_results_text_cases raise_for_status_def is_Exception_def
  str_lower_def lower_ucs4_def latin1_lower_def str_in_def sublist_code(3)
  example_db_def example_parser_def example_page_def example_link_def ascii_def Let_def
  enumerate_eq_zip

lemma subseq_set_mono: "subseq xs ys \<Longrightarrow> set xs \<subseteq> set ys"
  by (fastforce elim: list_emb_set)

lemma valid_links_eq:
  "collect_valid (gather_results w links) []
     = map snd (filter (\<lambda>(i, link). validate_single_link w i link = Inr (link, True))
                  (enumerate 0 links))"
  by (simp add: gather_results_def collect_valid_gather)

lemma validate_marketplace_links_eq:
  "validate_marketplace_links w links =
     (if links = [] then []
      else if collect_valid (gather_results w links) [] = [] then [links ! 0]
      else collect_valid (gather_results w links) [])"
  by (simp add: validate_marketplace_links_def Let_def hd_conv_nth)


section \<open>The link validator: fallback, fail-open and order\<close>

text \<open>
  C1. \<^verbatim>\<open>validate_marketplace_links\<close> returns the empty list exactly for the empty input;
  and when every link of a non-empty input is classified "no results" or its task fails
  (the result that \<^verbatim>\<open>gather\<close> holds for it is an exception), the result is the one-element
  list of the first input link. A failed fetch is not a failed task: it is classified
  "has results" (C2).
\<close>

theorem validate_never_empty:
  "(validate_marketplace_links w links = [] \<longleftrightarrow> links = [])
   \<and> (links \<noteq> []
        \<and> (\<forall>i<length links. validate_single_link w i (links ! i) = Inr (links ! i, False)
                              \<or> (\<exists>e. validate_single_link w i (links ! i) = Inl e))
       \<longrightarrow> validate_marketplace_links w links = [links ! 0])"
proof (intro conjI impI)
  show "validate_marketplace_links w links = [] \<longleftrightarrow> links = []"
    by (simp add: validate_marketplace_links_eq)
next
  assume a: "links \<noteq> []
        \<and> (\<forall>i<length links. validate_single_link w i (links ! i) = Inr (links ! i, False)
                              \<or> (\<exists>e. validate_single_link w i (links ! i) = Inl e))"
  then have "\<forall>x\<in>set (enumerate 0 links).
      \<not> (case x of (i, link) \<Rightarrow> validate_single_link w i link = Inr (link, True))"
    by (auto simp: in_set_enumerate_eq)
  then have "collect_valid (gather_results w links) [] = []"
    by (simp add: valid_links_eq filter_empty_conv)
  with a show "validate_marketplace_links w links = [links ! 0]"
    by (simp add: validate_marketplace_links_eq)
qed

theorem validate_never_empty_witness:
  "validate_single_link no_results_world 0 (example_link ''a'') = Inr (example_link ''a'', False)
   \<and> validate_single_link no_results_world 1 (example_link ''b'') = Inr (example_link ''b'', False)
   \<and> validate_marketplace_links no_results_world [example_link ''a'', example_link ''b'']
       = [example_link ''a'']
   \<and> validate_single_link cancelled_world 0 (example_link ''a'') = Inl CancelledError
   \<and> validate_single_link cancelled_world 1 (example_link ''b'') = Inl CancelledError
   \<and> validate_marketplace_links cancelled_world [example_link ''a'', example_link ''b'']
       = [example_link ''a'']"
proof -
  let ?links = "[example_link ''a'', example_link ''b'']"
  have n0: "validate_single_link no_results_world 0 (example_link ''a'') = Inr (example_link ''a'', False)"
    and n1: "validate_single_link no_results_world 1 (example_link ''b'') = Inr (example_link ''b'', False)"
    by (simp_all add: validator_eval no_results_world_def)
  have c0: "validate_single_link cancelled_world 0 (example_link ''a'') = Inl CancelledError"
    and c1: "validate_single_link cancelled_world 1 (example_link ''b'') = Inl CancelledError"
    by (simp_all add: validator_eval cancelled_world_def)
  have "\<forall>i<length ?links.
          validate_single_link no_results_world i (?links ! i) = Inr (?links ! i, False)
          \<or> (\<exists>e. validate_single_link no_results_world i (?links ! i) = Inl e)"
    using n0 n1 by (simp add: less_Suc_eq)
  then have n: "validate_marketplace_links no_results_world ?links = [example_link ''a'']"
    using validate_never_empty [of no_results_world ?links] by simp
  have "\<forall>i<length ?links.
          validate_single_link cancelled_world i (?links ! i) = Inr (?links ! i, False)
          \<or> (\<exists>e. validate_single_link cancelled_world i (?links ! i) = Inl e)"
    using c0 c1 by (simp add: less_Suc_eq)
  then have c: "validate_marketplace_links cancelled_world ?links = [example_link ''a'']"
    using validate_never_empty [of cancelled_world ?links] by simp
  show ?thesis by (intro conjI n0 n1 n c0 c1 c)
qed

text \<open>
  C2. A fetch failure of one link (timeout, connection error, status outside 2xx, any
  other exception while fetching or parsing) does not leave its task: the link is
  classified "has results" and is kept in the output of \<^verbatim>\<open>validate_marketplace_links\<close>.
\<close>

theorem fetch_failure_fails_open:
  assumes "i < length links" and "fetch_failure w i (links ! i)"
  shows "validate_single_link w i (links ! i) = Inr (links ! i, True)
     \<and> links ! i \<in> set (validate_marketplace_links w links)"
proof -
  have keep: "validate_single_link w i (links ! i) = Inr (links ! i, True)"
    using assms(2)
    by (auto simp: fetch_failure_def validate_single_link_def check_for_results_unfold
          raise_for_status_def is_Exception_def Let_def split: sum.splits if_splits)
  have "(i, links ! i) \<in> set (enumerate 0 links)"
    using assms(1) by (simp add: in_set_enumerate_eq)
  then have "(i, links ! i) \<in> set (filter (\<lambda>(i, link). validate_single_link w i link = Inr (link, True))
                  (enumerate 0 links))"
    using keep by simp
  then have "snd (i, links ! i) \<in> set (collect_valid (gather_results w links) [])"
    unfolding valid_links_eq set_map by (rule imageI)
  then have "links ! i \<in> set (collect_valid (gather_results w links) [])" by simp
  then have "links ! i \<in> set (validate_marketplace_links w links)"
    using assms(1) by (auto simp: validate_marketplace_links_eq)
  with keep show ?thesis by simp
qed

theorem fetch_failure_fails_open_witness:
  "fetch_failure example_world 1 (example_link ''b'')
   \<and> fetch_failure example_world 2 (example_link ''c'')
   \<and> validate_single_link example_world 2 (example_link ''c'') = Inr (example_link ''c'', True)
   \<and> example_link ''c'' \<in> set (validate_marketplace_links example_world
        [example_link ''a'', example_link ''b'', example_link ''c'', example_link ''d''])"
proof -
  have h1: "2 < length [example_link ''a'', example_link ''b'', example_link ''c'', example_link ''d'']"
    by simp
  have f1: "fetch_failure example_world 1 (example_link ''b'')"
    by (simp add: fetch_failure_def example_world_def example_net_def is_Exception_def)
  have f2: "fetch_failure example_world 2 (example_link ''c'')"
    by (simp add: fetch_failure_def example_world_def example_net_def)
  then have h2: "fetch_failure example_world 2
      ([example_link ''a'', example_link ''b'', example_link ''c'', example_link ''d''] ! 2)"
    by simp
  show ?thesis using fetch_failure_fails_open [OF h1 h2] f1 f2 by simp
qed

text \<open>
  C9. The output of \<^verbatim>\<open>validate_marketplace_links\<close> is a subsequence of its input: every
  output link is an input link and the links keep their relative order; when every link
  is classified "has results" the output is the input list.
\<close>

theorem validate_preserves_order:
  "subseq (validate_marketplace_links w links) links
   \<and> set (validate_marketplace_links w links) \<subseteq> set links
   \<and> ((\<forall>i<length links. validate_single_link w i (links ! i) = Inr (links ! i, True))
        \<longrightarrow> validate_marketplace_links w links = links)"
proof (intro conjI impI)
  show s: "subseq (validate_marketplace_links w links) links"
  proof (cases "links = []")
    case True
    then show ?thesis by (simp add: validate_marketplace_links_eq)
  next
    case False
    then obtain l ls where "links = l # ls" by (cases links) auto
    then have "subseq [links ! 0] links" by simp
    then show ?thesis
      using valid_links_subseq [of _ 0 links]
      by (simp add: validate_marketplace_links_eq valid_links_eq)
  qed
  show "set (validate_marketplace_links w links) \<subseteq> set links"
    using s by (rule subseq_set_mono)
next
  assume "\<forall>i<length links. validate_single_link w i (links ! i) = Inr (links ! i, True)"
  then have "\<forall>x\<in>set (enumerate 0 links).
      (case x of (i, link) \<Rightarrow> validate_single_link w i link = Inr (link, True))"
    by (auto simp: in_set_enumerate_eq)
  then have "filter (\<lambda>(i, link). validate_single_link w i link = Inr (link, True)) (enumerate 0 links)
     = enumerate 0 links"
    by (simp add: filter_id_conv)
  then have "collect_valid (gather_results w links) [] = links"
    by (simp add: valid_links_eq)
  then show "validate_marketplace_links w links = links"
    by (simp add: validate_marketplace_links_eq)
qed

theorem validate_preserves_order_witness:
  "validate_single_link results_world 0 (example_link ''a'') = Inr (example_link ''a'', True)
   \<and> validate_single_link results_world 1 (example_link ''b'') = Inr (example_link ''b'', True)
   \<and> validate_marketplace_links results_world [example_link ''a'', example_link ''b'']
       = [example_link ''a'', example_link ''b'']
   \<and> subseq (validate_marketplace_links example_world
        [example_link ''a'', example_link ''b'', example_link ''c'', example_link ''d''])
        [example_link ''a'', example_link ''b'', example_link ''c'', example_link ''d'']"
proof -
  have 0: "validate_single_link results_world 0 (example_link ''a'') = Inr (example_link ''a'', True)"
    by (simp add: validator_eval example_world_def results_world_def example_net_def)
  have 1: "validate_single_link results_world 1 (example_link ''b'') = Inr (example_link ''b'', True)"
    by (simp add: validator_eval example_world_def results_world_def example_net_def)
  have "\<forall>i<length [example_link ''a'', example_link ''b''].
          validate_single_link results_world i ([example_link ''a'', example_link ''b''] ! i)
            = Inr ([example_link ''a'', example_link ''b''] ! i, True)"
    using 0 1 by (simp add: less_Suc_eq)
  then show ?thesis
    using validate_preserves_order [of results_world "[example_link ''a'', example_link ''b'']"]
      validate_preserves_order [of example_world
        "[example_link ''a'', example_link ''b'', example_link ''c'', example_link ''d'']"] 0 1
    by simp
qed

section \<open>The link builder: routing, length and order\<close>

text \<open>
  C3. The marketplace lookup is total: a category in the routing table (book, clothing)
  gets that entry, every other category gets the default entry (leboncoin), the identifier
  is always one of the three marketplaces, and all links built from one classification
  carry the identifier that the lookup gives for its category.
\<close>

theorem marketplace_routing:
  "(\<forall>entry. MARKETPLACE_URLS t = Some entry \<longrightarrow> get_marketplace_for_type t = entry)
   \<and> (MARKETPLACE_URLS t = None \<longrightarrow> get_marketplace_for_type t = DEFAULT_MARKETPLACE)
   \<and> dom MARKETPLACE_URLS = {ascii ''book'', ascii ''clothing''}
   \<and> fst (get_marketplace_for_type (ascii ''book'')) = ascii ''abebooks''
   \<and> fst (get_marketplace_for_type (ascii ''clothing'')) = ascii ''vinted''
   \<and> (t \<noteq> ascii ''book'' \<and> t \<noteq> ascii ''clothing''
        \<longrightarrow> fst (get_marketplace_for_type t) = ascii ''leboncoin'')
   \<and> fst (get_marketplace_for_type t) \<in> set marketplace_literal
   \<and> (\<forall>links. build_marketplace_links a n = Inr links
        \<longrightarrow> (\<forall>l\<in>set links. marketplace l = fst (get_marketplace_for_type (object_type a))))"
proof (intro conjI allI impI)
  fix entry assume "MARKETPLACE_URLS t = Some entry"
  then show "get_marketplace_for_type t = entry" by (simp add: get_marketplace_for_type_def)
next
  assume "MARKETPLACE_URLS t = None"
  then show "get_marketplace_for_type t = DEFAULT_MARKETPLACE"
    by (simp add: get_marketplace_for_type_def)
next
  show "dom MARKETPLACE_URLS = {ascii ''book'', ascii ''clothing''}"
    by (auto simp: MARKETPLACE_URLS_def)
next
  show "fst (get_marketplace_for_type (ascii ''book'')) = ascii ''abebooks''"
    by (simp add: get_marketplace_for_type_cases)
next
  show "fst (get_marketplace_for_type (ascii ''clothing'')) = ascii ''vinted''"
    by (simp add: get_marketplace_for_type_cases) (simp add: ascii_def)
next
  assume "t \<noteq> ascii ''book'' \<and> t \<noteq> ascii ''clothing''"
  then show "fst (get_marketplace_for_type t) = ascii ''leboncoin''"
    by (simp add: get_marketplace_for_type_cases)
next
  show "fst (get_marketplace_for_type t) \<in> set marketplace_literal"
    by (rule routed_marketplace_literal)
next
  fix links
  assume b: "build_marketplace_links a n = Inr links"
  obtain name template where g: "get_marketplace_for_type (object_type a) = (name, template)"
    by (cases "get_marketplace_for_type (object_type a)")
  with b have "build_links_loop name template (slice_to (search_queries a) n) [] = Inr links"
    by (simp add: build_marketplace_links_def)
  from build_links_loop_Inr [OF this] have la:
    "list_all2 (\<lambda>sq l. build_marketplace_link name template (SearchQuery.query sq) = Inr l)
       (slice_to (search_queries a) n) links" by simp
  show "\<forall>l\<in>set links. marketplace l = fst (get_marketplace_for_type (object_type a))"
  proof
    fix l assume "l \<in> set links"
    then obtain i where i: "i < length links" and l: "links ! i = l"
      by (auto simp: in_set_conv_nth)
    from list_all2_nthD2 [OF la i] l
    have "build_marketplace_link name template
            (SearchQuery.query (slice_to (search_queries a) n ! i)) = Inr l"
      by simp
    then show "marketplace l = fst (get_marketplace_for_type (object_type a))"
      using build_marketplace_link_fields g by fastforce
  qed
qed


theorem marketplace_routing_witness:
  "MARKETPLACE_URLS (ascii ''tools'') = None
   \<and> fst (get_marketplace_for_type (ascii ''tools'')) = ascii ''leboncoin''
   \<and> MARKETPLACE_URLS (ascii ''book'') \<noteq> None
   \<and> (\<exists>l1 l2. build_marketplace_links example_book 5 = Inr [l1, l2]
         \<and> marketplace l1 = ascii ''abebooks'' \<and> marketplace l2 = ascii ''abebooks'')"
proof -
  have n: "MARKETPLACE_URLS (ascii ''tools'') = None"
    and s: "MARKETPLACE_URLS (ascii ''book'') \<noteq> None"
    by (simp_all add: MARKETPLACE_URLS_def ascii_def)
  have t: "ascii ''tools'' \<noteq> ascii ''book'' \<and> ascii ''tools'' \<noteq> ascii ''clothing''"
    by (simp add: ascii_def)
  obtain l1 l2 where b: "build_marketplace_links example_book 5 = Inr [l1, l2]"
    by (simp add: example_book_def builder_eval)
  have o: "object_type example_book = ascii ''book''" by (simp add: example_book_def)
  from marketplace_routing [of "ascii ''tools''" example_book 5] t b o
  have "fst (get_marketplace_for_type (ascii ''tools'')) = ascii ''leboncoin''"
    and "marketplace l1 = fst (get_marketplace_for_type (ascii ''book''))"
    and "marketplace l2 = fst (get_marketplace_for_type (ascii ''book''))"
    by simp_all
  moreover have "fst (get_marketplace_for_type (ascii ''book'')) = ascii ''abebooks''"
    using marketplace_routing [of "ascii ''book''" example_book 5] by blast
  ultimately show ?thesis using n s b by simp
qed


text \<open>
  C4. For a classification with at least one phrase and \<open>max_links\<close> at least 1,
  \<^verbatim>\<open>build_marketplace_links\<close> returns (it raises nothing) a non-empty list of
  min(number of phrases, \<open>max_links\<close>) links, the \<open>i\<close>-th link built from the \<open>i\<close>-th
  phrase. The phrase texts are Unicode text, as pydantic has validated them.
\<close>

theorem build_marketplace_links_length:
  assumes "search_queries a \<noteq> []" and "1 \<le> max_links"
    and "list_all (\<lambda>sq. unicode_text (SearchQuery.query sq)) (search_queries a)"
  shows "\<exists>links. build_marketplace_links a max_links = Inr links
     \<and> links \<noteq> []
     \<and> length links = min (length (search_queries a)) (nat max_links)
     \<and> (\<forall>i<length links.
           build_marketplace_link (fst (get_marketplace_for_type (object_type a)))
             (snd (get_marketplace_for_type (object_type a)))
             (SearchQuery.query (search_queries a ! i)) = Inr (links ! i)
           \<and> MarketplaceLink.query (links ! i) = SearchQuery.query (search_queries a ! i))"
proof -
  let ?name = "fst (get_marketplace_for_type (object_type a))"
  let ?template = "snd (get_marketplace_for_type (object_type a))"
  let ?qs = "slice_to (search_queries a) max_links"
  have qs: "?qs = take (nat max_links) (search_queries a)"
    using assms(2) by (simp add: slice_to_def)
  have "list_all (\<lambda>sq. unicode_text (SearchQuery.query sq)) ?qs"
    using assms(3) unfolding qs list_all_iff by (meson in_set_takeD)
  then have "list_all (\<lambda>sq. \<exists>l. build_marketplace_link ?name ?template (SearchQuery.query sq) = Inr l) ?qs"
    unfolding list_all_iff using build_marketplace_link_routed by blast
  from build_links_loop_total [OF this, of "[]"] obtain links
    where r: "build_links_loop ?name ?template ?qs [] = Inr links" by blast
  from build_links_loop_Inr [OF r] have la:
    "list_all2 (\<lambda>sq l. build_marketplace_link ?name ?template (SearchQuery.query sq) = Inr l) ?qs links"
    by simp
  have len: "length links = min (length (search_queries a)) (nat max_links)"
    using list_all2_lengthD [OF la] by (simp add: qs)
  have "0 < length (search_queries a)" and "0 < nat max_links"
    using assms(1,2) by simp_all
  then have "0 < length links" by (simp add: len)
  then have ne: "links \<noteq> []" by simp
  have b: "build_marketplace_links a max_links = Inr links"
    using r by (simp add: build_marketplace_links_def case_prod_beta)
  have nth: "build_marketplace_link ?name ?template (SearchQuery.query (search_queries a ! i)) = Inr (links ! i)
       \<and> MarketplaceLink.query (links ! i) = SearchQuery.query (search_queries a ! i)"
    if "i < length links" for i
  proof -
    have "?qs ! i = search_queries a ! i" using that len by (simp add: qs)
    with list_all2_nthD2 [OF la that]
    have "build_marketplace_link ?name ?template (SearchQuery.query (search_queries a ! i)) = Inr (links ! i)"
      by simp
    then show ?thesis using build_marketplace_link_fields by blast
  qed
  show ?thesis using b ne len nth by blast
qed

theorem build_marketplace_links_length_witness:
  "search_queries example_book \<noteq> [] \<and> (1::int) \<le> 5
   \<and> list_all (\<lambda>sq. unicode_text (SearchQuery.query sq)) (search_queries example_book)
   \<and> (\<exists>links. build_marketplace_links example_book 5 = Inr links \<and> length links = 2
        \<and> map MarketplaceLink.query links = [ascii ''livre policier'', ascii ''roman thriller''])"
proof -
  have h1: "search_queries example_book \<noteq> []" by (simp add: example_book_def)
  have h2: "(1::int) \<le> 5" by simp
  have h3: "list_all (\<lambda>sq. unicode_text (SearchQuery.query sq)) (search_queries example_book)"
    by (simp add: example_book_def unicode_text_def scalar_value_def ascii_def)
  from build_marketplace_links_length [OF h1 h2 h3] obtain links
    where b: "build_marketplace_links example_book 5 = Inr links"
      and len: "length links = min (length (search_queries example_book)) (nat 5)"
      and nth: "\<forall>i<length links.
           MarketplaceLink.query (links ! i) = SearchQuery.query (search_queries example_book ! i)"
    by blast
  have l2: "length links = 2" using len by (simp add: example_book_def)
  then obtain l1 l2 where ls: "links = [l1, l2]"
    by (auto simp: numeral_2_eq_2 length_Suc_conv)
  have q: "map MarketplaceLink.query links = [ascii ''livre policier'', ascii ''roman thriller'']"
    using nth unfolding ls by (simp add: example_book_def less_Suc_eq)
  have "\<exists>links. build_marketplace_links example_book 5 = Inr links \<and> length links = 2
        \<and> map MarketplaceLink.query links = [ascii ''livre policier'', ascii ''roman thriller'']"
    by (intro exI [where x = links] conjI b l2 q)
  then show ?thesis by (intro conjI h1 h2 h3)
qed


text \<open>
  C10. With \<open>max_links = 0\<close> the result is the empty list for every classification, also
  one that has phrases: the function does not enforce \<open>max_links \<ge> 1\<close>.
\<close>

theorem build_marketplace_links_zero:
  "build_marketplace_links a 0 = Inr []"
  by (simp add: build_marketplace_links_def slice_to_def split: prod.splits)

theorem build_marketplace_links_zero_witness:
  "search_queries example_book \<noteq> [] \<and> build_marketplace_links example_book 0 = Inr []"
  using build_marketplace_links_zero [of example_book] by (simp add: example_book_def)


section \<open>The link builder: percent-encoding\<close>

text \<open>
  C7. \<^verbatim>\<open>encode_query\<close> raises nothing on Unicode text and encodes it character by
  character: a character of the unreserved set (ASCII letters, digits and \<^verbatim>\<open>-._~\<close>) stands
  for itself and every other character becomes the \<^verbatim>\<open>%XX\<close> escapes of its UTF-8 bytes. The
  output holds only unreserved characters and \<^verbatim>\<open>%\<close>, so no space and no \<^verbatim>\<open>+\<close>; a space
  becomes \<^verbatim>\<open>%20\<close>, U+00E9 becomes \<^verbatim>\<open>%C3%A9\<close> and U+00E0 becomes \<^verbatim>\<open>%C3%A0\<close>, also in the
  URL built for the phrase of the specification's example.
\<close>

theorem encode_query_percent_encodes:
  assumes "unicode_text s"
  shows "encode_query s = Inr (concat (map spec_encode_char s))
     \<and> (\<forall>x\<in>set (concat (map spec_encode_char s)). always_safe x \<or> x = 0x25)
     \<and> 0x20 \<notin> set (concat (map spec_encode_char s))
     \<and> 0x2B \<notin> set (concat (map spec_encode_char s))
     \<and> encode_query (ascii '' '') = Inr (ascii ''%20'')
     \<and> encode_query [0xE9] = Inr (ascii ''%C3%A9'')
     \<and> encode_query [0xE0] = Inr (ascii ''%C3%A0'')
     \<and> build_marketplace_links example_tools 5 =
         Inr [\<lparr>marketplace = ascii ''leboncoin'', query = cle_a_molette,
               url = ascii ''https://www.leboncoin.fr/recherche?text=cl%C3%A9%20%C3%A0%20molette''\<rparr>]"
proof -
  let ?out = "concat (map spec_encode_char s)"
  have alpha: "\<forall>x\<in>set ?out. always_safe x \<or> x = 0x25"
    using spec_encode_char_alphabet by auto
  have "\<not> always_safe 0x20" and "\<not> always_safe 0x2B" by (simp_all add: always_safe_def)
  with alpha have "0x20 \<notin> set ?out" and "0x2B \<notin> set ?out" by fastforce+
  moreover have "encode_query (ascii '' '') = Inr (ascii ''%20'')"
    by (simp add: builder_eval)
  moreover have "encode_query [0xE9] = Inr (ascii ''%C3%A9'')"
    and "encode_query [0xE0] = Inr (ascii ''%C3%A0'')"
    by (simp_all add: builder_eval)
  moreover have "build_marketplace_links example_tools 5 =
         Inr [\<lparr>marketplace = ascii ''leboncoin'', query = cle_a_molette,
               url = ascii ''https://www.leboncoin.fr/recherche?text=cl%C3%A9%20%C3%A0%20molette''\<rparr>]"
    by (simp add: example_tools_def cle_a_molette_def builder_eval)
  ultimately show ?thesis using encode_query_text [OF assms] alpha by simp
qed

theorem encode_query_percent_encodes_witness:
  "unicode_text cle_a_molette
   \<and> encode_query cle_a_molette = Inr (ascii ''cl%C3%A9%20%C3%A0%20molette'')
   \<and> 0x20 \<notin> set (ascii ''cl%C3%A9%20%C3%A0%20molette'')"
proof -
  have h: "unicode_text cle_a_molette"
    by (simp add: cle_a_molette_def unicode_text_def scalar_value_def ascii_def)
  have e: "concat (map spec_encode_char cle_a_molette) = ascii ''cl%C3%A9%20%C3%A0%20molette''"
    by (simp add: cle_a_molette_def spec_encode_char_def percent_escape_def utf8_bytes_def
          utf8_encode_cp_def always_safe_def hex_digit_def ascii_def)
  show ?thesis using encode_query_percent_encodes [OF h] h unfolding e by simp
qed


text \<open>
  C8. Percent-decoding the encoded query gives back the phrase text, and the encoded
  query is what \<^verbatim>\<open>build_marketplace_link\<close> puts in the place of \<^verbatim>\<open>{query}\<close> in the template
  of every marketplace.
\<close>

theorem encode_query_round_trip:
  assumes "unicode_text s"
  shows "\<exists>e. encode_query s = Inr e \<and> percent_decode e = Some s
     \<and> (\<exists>pre suf. snd (get_marketplace_for_type t) = pre @ ascii ''{query}'' @ suf
          \<and> build_marketplace_link (fst (get_marketplace_for_type t))
               (snd (get_marketplace_for_type t)) s
              = Inr \<lparr>marketplace = fst (get_marketplace_for_type t), query = s,
                     url = pre @ e @ suf\<rparr>)"
  using encode_query_text [OF assms] percent_decode_encoded [OF assms]
    build_marketplace_link_routed [OF assms, of t]
  by simp

theorem encode_query_round_trip_witness:
  "unicode_text cle_a_molette
   \<and> encode_query cle_a_molette = Inr (ascii ''cl%C3%A9%20%C3%A0%20molette'')
   \<and> percent_decode (ascii ''cl%C3%A9%20%C3%A0%20molette'') = Some cle_a_molette"
proof -
  have h: "unicode_text cle_a_molette"
    by (simp add: cle_a_molette_def unicode_text_def scalar_value_def ascii_def)
  have e: "encode_query cle_a_molette = Inr (ascii ''cl%C3%A9%20%C3%A0%20molette'')"
    by (simp add: cle_a_molette_def builder_eval)
  from encode_query_round_trip [OF h, of "ascii ''tools''"] e
  have "percent_decode (ascii ''cl%C3%A9%20%C3%A0%20molette'') = Some cle_a_molette"
    by auto
  with h e show ?thesis by simp
qed


section \<open>The link validator: the results heuristic\<close>

text \<open>
  C5. On a parsed page \<^verbatim>\<open>check_for_results\<close> answers "no results" exactly when the
  lower-cased visible text contains one of the no-results phrases of the marketplace; the
  elements that the result selector matches never change the answer, so the negative
  check has precedence and the answer is "has results" in every other case, also for a
  marketplace that the table does not know. The phrases of the three marketplaces are
  those of the table.
\<close>

theorem check_for_results_rule:
  assumes "BeautifulSoup w html = Inr page"
  shows "check_for_results w html m
       = Inr (\<not> (\<exists>p\<in>set (no_results_text m). str_in p (str_lower (ucd w) (get_text page))))
     \<and> ((\<exists>p\<in>set (no_results_text m). str_in p (str_lower (ucd w) (get_text page)))
          \<longrightarrow> check_for_results w html m = Inr False)
     \<and> ((\<forall>p\<in>set (no_results_text m). \<not> str_in p (str_lower (ucd w) (get_text page)))
          \<longrightarrow> check_for_results w html m = Inr True)
     \<and> (m \<notin> dom MARKETPLACE_SELECTORS \<longrightarrow> check_for_results w html m = Inr True)
     \<and> dom MARKETPLACE_SELECTORS = {ascii ''abebooks'', ascii ''vinted'', ascii ''leboncoin''}
     \<and> no_results_text (ascii ''abebooks'')
         = [ascii ''aucun r'' @ [0xE9] @ ascii ''sultat'', ascii ''no results found'',
            ascii ''0 r'' @ [0xE9] @ ascii ''sultat'']
     \<and> no_results_text (ascii ''vinted'')
         = [ascii ''aucun article'', ascii ''aucun r'' @ [0xE9] @ ascii ''sultat'']
     \<and> no_results_text (ascii ''leboncoin'')
         = [ascii ''aucune annonce'', ascii ''0 annonce trouv'' @ [0xE9] @ ascii ''e'',
            ascii ''pas de r'' @ [0xE9] @ ascii ''sultat'']"
proof -
  note eq = check_for_results_eq [OF assms, of m]
  have d: "dom MARKETPLACE_SELECTORS = {ascii ''abebooks'', ascii ''vinted'', ascii ''leboncoin''}"
    by (auto simp: MARKETPLACE_SELECTORS_def)
  have u: "check_for_results w html m = Inr True" if "m \<notin> dom MARKETPLACE_SELECTORS"
  proof -
    from that have "no_results_text m = []" by (auto simp: no_results_text_def domIff)
    then show ?thesis using eq by simp
  qed
  have a: "no_results_text (ascii ''abebooks'')
         = [ascii ''aucun r'' @ [0xE9] @ ascii ''sultat'', ascii ''no results found'',
            ascii ''0 r'' @ [0xE9] @ ascii ''sultat'']"
    by (simp add: no_results_text_cases)
  have v: "no_results_text (ascii ''vinted'')
         = [ascii ''aucun article'', ascii ''aucun r'' @ [0xE9] @ ascii ''sultat'']"
    by (simp add: no_results_text_cases) (simp add: ascii_def)
  have l: "no_results_text (ascii ''leboncoin'')
         = [ascii ''aucune annonce'', ascii ''0 annonce trouv'' @ [0xE9] @ ascii ''e'',
            ascii ''pas de r'' @ [0xE9] @ ascii ''sultat'']"
    by (simp add: no_results_text_cases) (simp add: ascii_def)
  show ?thesis
  proof (intro conjI impI)
    show "check_for_results w html m
       = Inr (\<not> (\<exists>p\<in>set (no_results_text m). str_in p (str_lower (ucd w) (get_text page))))"
      by (rule eq)
  next
    assume "\<exists>p\<in>set (no_results_text m). str_in p (str_lower (ucd w) (get_text page))"
    then show "check_for_results w html m = Inr False" using eq by simp
  next
    assume "\<forall>p\<in>set (no_results_text m). \<not> str_in p (str_lower (ucd w) (get_text page))"
    then show "check_for_results w html m = Inr True" using eq by simp
  next
    assume "m \<notin> dom MARKETPLACE_SELECTORS"
    then show "check_for_results w html m = Inr True" by (rule u)
  qed (rule d a v l)+
qed

theorem check_for_results_rule_witness:
  "BeautifulSoup example_world (ascii ''Aucun Article ici'')
     = Inr (example_page (ascii ''Aucun Article ici''))
   \<and> select (example_page (ascii ''Aucun Article ici'')) (ascii ''.feed-grid__item'') \<noteq> []
   \<and> str_in (ascii ''aucun article'')
        (str_lower (ucd example_world) (get_text (example_page (ascii ''Aucun Article ici''))))
   \<and> check_for_results example_world (ascii ''Aucun Article ici'') (ascii ''vinted'') = Inr False
   \<and> check_for_results example_world (ascii ''Aucun Article ici'') (ascii ''ebay'') = Inr True"
proof -
  have h: "BeautifulSoup example_world (ascii ''Aucun Article ici'')
     = Inr (example_page (ascii ''Aucun Article ici''))"
    by (simp add: example_world_def example_parser_def)
  have s: "str_in (ascii ''aucun article'')
        (str_lower (ucd example_world) (get_text (example_page (ascii ''Aucun Article ici''))))"
    by (simp add: validator_eval example_world_def example_net_def)
  have m: "ascii ''ebay'' \<notin> {ascii ''abebooks'', ascii ''vinted'', ascii ''leboncoin''}"
    by (simp add: ascii_def)
  have e: "select (example_page (ascii ''Aucun Article ici'')) (ascii ''.feed-grid__item'') \<noteq> []"
    by (simp add: example_page_def)
  have "check_for_results example_world (ascii ''Aucun Article ici'') (ascii ''vinted'') = Inr False"
    using check_for_results_rule [OF h, of "ascii ''vinted''"] s by simp
  moreover have "check_for_results example_world (ascii ''Aucun Article ici'') (ascii ''ebay'') = Inr True"
  proof -
    note r = check_for_results_rule [OF h, of "ascii ''ebay''"]
    note unknown = r [THEN conjunct2, THEN conjunct2, THEN conjunct2, THEN conjunct1]
    note known = r [THEN conjunct2, THEN conjunct2, THEN conjunct2, THEN conjunct2, THEN conjunct1]
    have "ascii ''ebay'' \<notin> dom MARKETPLACE_SELECTORS" unfolding known by (rule m)
    with unknown show ?thesis by (rule mp)
  qed
  ultimately show ?thesis using h s e by simp
qed


text \<open>
  C6. The phrase "no results found" is in the list of abebooks only. For abebooks, a page
  whose visible text contains it in any letter case is classified "no results", whatever
  the result selector matches; for vinted such a page is classified "has results".
\<close>

theorem no_results_found_abebooks:
  assumes "BeautifulSoup w html = Inr page"
    and "str_in (ascii ''no results found'') (map latin1_lower (get_text page))"
  shows "check_for_results w html (ascii ''abebooks'') = Inr False"
proof -
  have "list_all (\<lambda>c. c < 0x80) (ascii ''no results found'')" by (simp add: ascii_def)
  from str_in_lower [OF assms(2) this]
  have "str_in (ascii ''no results found'') (str_lower (ucd w) (get_text page))" .
  moreover have "ascii ''no results found'' \<in> set (no_results_text (ascii ''abebooks''))"
    by (simp add: no_results_text_cases)
  ultimately show ?thesis using check_for_results_eq [OF assms(1), of "ascii ''abebooks''"]
    by auto
qed

theorem no_results_found_abebooks_witness:
  "BeautifulSoup example_world (ascii ''No Results FOUND for x'')
     = Inr (example_page (ascii ''No Results FOUND for x''))
   \<and> str_in (ascii ''no results found'')
        (map latin1_lower (get_text (example_page (ascii ''No Results FOUND for x''))))
   \<and> select (example_page (ascii ''No Results FOUND for x'')) (ascii ''.result-item'') \<noteq> []
   \<and> check_for_results example_world (ascii ''No Results FOUND for x'') (ascii ''abebooks'') = Inr False"
proof -
  have h: "BeautifulSoup example_world (ascii ''No Results FOUND for x'')
     = Inr (example_page (ascii ''No Results FOUND for x''))"
    by (simp add: example_world_def example_parser_def)
  have s: "str_in (ascii ''no results found'')
        (map latin1_lower (get_text (example_page (ascii ''No Results FOUND for x''))))"
    by (simp add: validator_eval example_world_def example_net_def)
  have e: "select (example_page (ascii ''No Results FOUND for x'')) (ascii ''.result-item'') \<noteq> []"
    by (simp add: example_page_def)
  show ?thesis using no_results_found_abebooks [OF h s] h s e by simp
qed

theorem no_results_found_vinted_counterexample:
  "BeautifulSoup example_world (ascii ''No results found'')
     = Inr (example_page (ascii ''No results found''))
   \<and> str_in (ascii ''no results found'')
        (map latin1_lower (get_text (example_page (ascii ''No results found''))))
   \<and> check_for_results example_world (ascii ''No results found'') (ascii ''vinted'') = Inr True"
  by (simp add: validator_eval example_world_def example_net_def)


end
